theory Spec2Isabelle
  imports Main "HOL-Library.Word"
begin

unbundle bit_operations_syntax

section \<open>Bytes, fixed arrays and the constant tables of package png\<close>

type_synonym byte = "8 word"
type_synonym uint32 = "32 word"

text \<open>
  Go's \<open>[4]byte\<close> (the fields \<open>Length\<close> and \<open>CRC\<close> of \<open>Chunk\<close>) is a value of exactly
  four bytes. \<open>slice4\<close> is the slice expression \<open>a[:]\<close>; \<open>array4\<close> is the content of a
  zero-initialised array after a buffer has been copied into it.
\<close>

type_synonym byte4 = "byte \<times> byte \<times> byte \<times> byte"

fun slice4 :: "byte4 \<Rightarrow> byte list" where
  "slice4 (b0, b1, b2, b3) = [b0, b1, b2, b3]"

fun array4 :: "byte list \<Rightarrow> byte4" where
  "array4 (b0 # b1 # b2 # b3 # _) = (b0, b1, b2, b3)"
| "array4 [b0, b1, b2] = (b0, b1, b2, 0)"
| "array4 [b0, b1] = (b0, b1, 0, 0)"
| "array4 [b0] = (b0, 0, 0, 0)"
| "array4 [] = (0, 0, 0, 0)"

text \<open>A Go byte-slice literal of ASCII characters, such as \<open>[]byte{'I', 'H', 'D', 'R'}\<close>.\<close>

definition ascii :: "string \<Rightarrow> byte list" where
  "ascii s = map of_char s"

definition pngHeader :: "byte list" where
  "pngHeader = [0x89, 0x50, 0x4e, 0x47, 0x0d, 0x0a, 0x1a, 0x0a]"

definition ctHdr :: "byte list" where "ctHdr = ascii ''IHDR''"
definition ctPlte :: "byte list" where "ctPlte = ascii ''PLTE''"
definition ctDat :: "byte list" where "ctDat = ascii ''IDAT''"
definition ctEnd :: "byte list" where "ctEnd = ascii ''IEND''"
definition ctBkgd :: "byte list" where "ctBkgd = ascii ''bKGD''"
definition ctChrm :: "byte list" where "ctChrm = ascii ''cHRM''"
definition ctDSig :: "byte list" where "ctDSig = ascii ''dSIG''"
definition ctExif :: "byte list" where "ctExif = ascii ''eXIf''"
definition ctGama :: "byte list" where "ctGama = ascii ''gAMA''"
definition ctHist :: "byte list" where "ctHist = ascii ''hIST''"
definition ctIccp :: "byte list" where "ctIccp = ascii ''iCCP''"
definition ctItxt :: "byte list" where "ctItxt = ascii ''iTXt''"
definition ctPhys :: "byte list" where "ctPhys = ascii ''pHYs''"
definition ctSbit :: "byte list" where "ctSbit = ascii ''sBIT''"
definition ctSplt :: "byte list" where "ctSplt = ascii ''sPLT''"
definition ctSrgb :: "byte list" where "ctSrgb = ascii ''sRGB''"
definition ctSter :: "byte list" where "ctSter = ascii ''sTER''"
definition ctText :: "byte list" where "ctText = ascii ''tEXt''"
definition ctTime :: "byte list" where "ctTime = ascii ''tIME''"
definition ctTrns :: "byte list" where "ctTrns = ascii ''tRNS''"
definition ctZtxt :: "byte list" where "ctZtxt = ascii ''zTXt''"

lemmas ct_defs =
  ctHdr_def ctPlte_def ctDat_def ctEnd_def ctBkgd_def ctChrm_def ctDSig_def ctExif_def
  ctGama_def ctHist_def ctIccp_def ctItxt_def ctPhys_def ctSbit_def ctSplt_def ctSrgb_def
  ctSter_def ctText_def ctTime_def ctTrns_def ctZtxt_def

section \<open>Chunk types\<close>

datatype chunkType =
    ChunkTypeUnknown
  | ChunkTypeHeader
  | ChunkTypePalette
  | ChunkTypeData
  | ChunkTypeEnd
  | ChunkTypeBkgdColor
  | ChunkTypeChromaticity
  | ChunkTypeDigiSignal
  | ChunkTypeExif
  | ChunkTypeGamma
  | ChunkTypeHistogram
  | ChunkTypeICC
  | ChunkTypeTxtUTF8
  | ChunkTypePxSize
  | ChunkTypeSigBits
  | ChunkTypeSugPalette
  | ChunkTypeRGB
  | ChunkTypeStereo
  | ChunkTypeTxtISO8859
  | ChunkTypeTimeChanged
  | ChunkTypeTransparency
  | ChunkTypeTxtCompressed

text \<open>
  \<open>getChunkType\<close>: a chain of \<open>bytes.Compare(ct[:], ctX) == 0\<close> tests, which hold exactly when
  the two slices have the same bytes; the first match returns.
\<close>

definition getChunkType :: "byte list \<Rightarrow> chunkType" where
  "getChunkType ct =
    (if ct = ctHdr then ChunkTypeHeader
     else if ct = ctPlte then ChunkTypePalette
     else if ct = ctDat then ChunkTypeData
     else if ct = ctEnd then ChunkTypeEnd
     else if ct = ctBkgd then ChunkTypeBkgdColor
     else if ct = ctChrm then ChunkTypeChromaticity
     else if ct = ctDSig then ChunkTypeDigiSignal
     else if ct = ctExif then ChunkTypeExif
     else if ct = ctGama then ChunkTypeGamma
     else if ct = ctHist then ChunkTypeHistogram
     else if ct = ctIccp then ChunkTypeICC
     else if ct = ctItxt then ChunkTypeTxtUTF8
     else if ct = ctPhys then ChunkTypePxSize
     else if ct = ctSbit then ChunkTypeSigBits
     else if ct = ctSplt then ChunkTypeSugPalette
     else if ct = ctSrgb then ChunkTypeRGB
     else if ct = ctSter then ChunkTypeStereo
     else if ct = ctText then ChunkTypeTxtISO8859
     else if ct = ctTime then ChunkTypeTimeChanged
     else if ct = ctTrns then ChunkTypeTransparency
     else if ct = ctZtxt then ChunkTypeTxtCompressed
     else ChunkTypeUnknown)"

text \<open>\<open>chunkType.String\<close>: the human-friendly name of a chunk type.\<close>

fun String :: "chunkType \<Rightarrow> string" where
  "String ChunkTypeHeader = ''IHDR (Header)''"
| "String ChunkTypePalette = ''PLTE (Pallette)''"
| "String ChunkTypeData = ''IDAT (Data)''"
| "String ChunkTypeEnd = ''IEND (Image End)''"
| "String ChunkTypeBkgdColor = ''bKGD (Default Background Color)''"
| "String ChunkTypeChromaticity = ''cHRM (Chromaticity)''"
| "String ChunkTypeDigiSignal = ''dSIG (Digital Signatures)''"
| "String ChunkTypeExif = ''eXIf (Exif)''"
| "String ChunkTypeGamma = ''gAMA (Gamma)''"
| "String ChunkTypeHistogram = ''hIST (Color Histogram)''"
| "String ChunkTypeICC = ''iCCP (ICC Color Profile)''"
| "String ChunkTypeTxtUTF8 = ''iTXt (UTF-8 Keyword Text)''"
| "String ChunkTypePxSize = ''pHYs (Intended Pixel Size)''"
| "String ChunkTypeSigBits = ''sBIT (Color-Accuracy)''"
| "String ChunkTypeSugPalette = ''sPLT (Suggested Palette)''"
| "String ChunkTypeRGB = ''sRGB (sRGB Color Space)''"
| "String ChunkTypeStereo = ''sTER (Stereo-Image Indicator)''"
| "String ChunkTypeTxtISO8859 = ''tEXt (ISO/IEC 885901 Text)''"
| "String ChunkTypeTimeChanged = ''tIME (Last Changed Time)''"
| "String ChunkTypeTransparency = ''tRNS (Transparency)''"
| "String ChunkTypeTxtCompressed = ''zTXt (Compressed Text)''"
| "String ChunkTypeUnknown = ''Unknown''"

section \<open>The input: a buffered reader over a byte source\<close>

text \<open>
  The errors of package \<open>io\<close> that the parser can meet: \<open>io.EOF\<close>, \<open>io.ErrUnexpectedEOF\<close>,
  and \<open>ErrRead\<close> for any other failure of the underlying reader.
\<close>

datatype ioerr = EOF | ErrUnexpectedEOF | ErrRead

text \<open>
  The \<open>bufio.Reader\<close> over the \<open>io.ReadCloser\<close> is modelled by what is still unread:
  \<open>pending\<close>, the bytes that the source will deliver, and \<open>ending\<close>, the condition that the
  source reports once they are used up (\<open>EOF\<close> for a file or a closed pipe). The source is
  finite and its end condition persists.
\<close>

record reader =
  pending :: "byte list"
  ending :: ioerr

text \<open>
  \<open>bufio.Reader.Peek(n)\<close>: the next \<open>n\<close> bytes without advancing the reader; with fewer than
  \<open>n\<close> bytes left, the error of the source. The reader is returned as it was.
\<close>

definition Peek :: "nat \<Rightarrow> reader \<Rightarrow> (ioerr + byte list) \<times> reader" where
  "Peek n r =
    (if n \<le> length (pending r) then (Inr (take n (pending r)), r)
     else (Inl (ending r), r))"

text \<open>
  \<open>io.ReadFull(r, buf)\<close> with \<open>len(buf) = n\<close>: exactly \<open>n\<close> bytes, consumed; an empty buffer
  reads nothing and succeeds; when the source ends before any byte was read, the error of the
  source (so \<open>io.EOF\<close> at a clean end); when it ends after some but fewer than \<open>n\<close> bytes,
  \<open>io.ErrUnexpectedEOF\<close> in place of \<open>io.EOF\<close>, and the bytes read are consumed.
\<close>

definition ReadFull :: "nat \<Rightarrow> reader \<Rightarrow> (ioerr + byte list) \<times> reader" where
  "ReadFull n r =
    (if n \<le> length (pending r)
       then (Inr (take n (pending r)), r\<lparr>pending := drop n (pending r)\<rparr>)
     else if pending r = [] then (Inl (ending r), r)
     else (Inl (if ending r = EOF then ErrUnexpectedEOF else ending r), r\<lparr>pending := []\<rparr>))"

text \<open>
  \<open>binary.BigEndian.Uint32(b)\<close>:
  \<open>uint32(b[3]) | uint32(b[2])<<8 | uint32(b[1])<<16 | uint32(b[0])<<24\<close>. It panics on a
  slice shorter than four bytes (no equation); every call of the package passes four bytes.
\<close>

fun BigEndian_Uint32 :: "byte list \<Rightarrow> uint32" where
  "BigEndian_Uint32 (b0 # b1 # b2 # b3 # _) =
     (ucast b3 OR push_bit 8 (ucast b2) OR push_bit 16 (ucast b1) OR push_bit 24 (ucast b0))"

section \<open>Chunks, the parser and its errors\<close>

record Chunk =
  Length :: byte4
  CRC :: byte4
  Type :: chunkType
  Data :: "byte list"

record headerChunk =
  Width :: uint32
  Height :: uint32
  BitDepth :: byte
  ColorType :: byte
  CompressionMethod :: byte
  FilterMethod :: byte
  InterlaceMethod :: byte

text \<open>
  The errors that \<open>chunks\<close>, \<open>Parse\<close> and \<open>parseHeader\<close> return, one constructor for each
  \<open>errors.New\<close>/\<open>fmt.Errorf\<close> of the source, carrying the values its message formats.
  \<open>ErrIO\<close> is the error of \<open>IsPNG\<close> handed on as it is.
\<close>

datatype error =
    ErrIO ioerr
  | ErrNotPNG
  | ErrReadHeader "ioerr option"
  | ErrChunkLength ioerr
  | ErrChunkType ioerr
  | ErrChunkData ioerr
  | ErrChunkCRC ioerr
  | ErrShortCRC nat nat
  | ErrHeaderSize nat nat
  | ErrClosedPipe

record Parser =
  Path :: string
  br :: reader
  data :: "Chunk list"

definition New :: "string \<Rightarrow> reader \<Rightarrow> Parser" where
  "New path rc = \<lparr>Path = path, br = rc, data = []\<rparr>"

text \<open>\<open>IsPNG\<close> returns \<open>(bool, error)\<close>; the parser is returned with the reader after the peek.\<close>

definition IsPNG :: "Parser \<Rightarrow> (bool \<times> ioerr option) \<times> Parser" where
  "IsPNG p =
    (case Peek 8 (br p) of
       (Inl err, r) \<Rightarrow> ((False, Some err), p\<lparr>br := r\<rparr>)
     | (Inr b, r) \<Rightarrow> ((pngHeader = b, None), p\<lparr>br := r\<rparr>))"

text \<open>
  One pass through the body of the \<open>for\<close> loop of \<open>chunks\<close>: it leaves the loop (\<open>Break\<close>),
  returns from \<open>chunks\<close> with an error (\<open>Return\<close>), or appends a chunk and goes round again
  (\<open>Append\<close>).
\<close>

datatype step = Break | Return error | Append Chunk

definition chunks_body :: "reader \<Rightarrow> step \<times> reader" where
  "chunks_body r0 =
    (case ReadFull 4 r0 of
       (Inl err, r1) \<Rightarrow>
         if err = EOF then (Break, r1) else (Return (ErrChunkLength err), r1)
     | (Inr lengthb, r1) \<Rightarrow>
        (case ReadFull 4 r1 of
           (Inl err, r2) \<Rightarrow>
             if err = EOF then (Break, r2) else (Return (ErrChunkType err), r2)
         | (Inr chType, r2) \<Rightarrow>
            (let l = BigEndian_Uint32 (slice4 (array4 lengthb)) in
             case ReadFull (unat l) r2 of
               (Inl err, r3) \<Rightarrow>
                 if err = EOF then (Break, r3) else (Return (ErrChunkData err), r3)
             | (Inr dat, r3) \<Rightarrow>
                (case ReadFull 4 r3 of
                   (Inl err, r4) \<Rightarrow>
                     if err = EOF then (Break, r4) else (Return (ErrChunkCRC err), r4)
                 | (Inr crcb, r4) \<Rightarrow>
                     if length crcb \<noteq> 4 then (Return (ErrShortCRC (length crcb) 4), r4)
                     else (Append \<lparr>Length = array4 lengthb, CRC = array4 crcb,
                                    Type = getChunkType chType, Data = dat\<rparr>, r4)))))"

text \<open>
  The \<open>for\<close> loop of \<open>chunks\<close>, with the chunks appended so far. Every further round has
  consumed the four bytes of a length, so the loop ends on a finite source.
\<close>

function chunks_loop :: "reader \<Rightarrow> Chunk list \<Rightarrow> (Chunk list \<times> error option) \<times> reader" where
  "chunks_loop r cs =
    (case chunks_body r of
       (Break, r') \<Rightarrow> ((cs, None), r')
     | (Return err, r') \<Rightarrow> ((cs, Some err), r')
     | (Append c, r') \<Rightarrow> chunks_loop r' (cs @ [c]))"
  by pat_completeness auto
termination
proof (relation "measure (\<lambda>(r, cs). length (pending r))")
  show "wf (measure (\<lambda>(r, cs). length (pending r)))"
    by simp
next
  fix r :: reader and cs :: "Chunk list" and s :: step and r' :: reader and c :: Chunk
  assume "(s, r') = chunks_body r" and "s = Append c"
  then have body: "chunks_body r = (Append c, r')"
    by simp
  have "length (pending r') < length (pending r)"
    using body
    by (auto simp: chunks_body_def ReadFull_def Let_def split: if_splits)
  then show "((r', cs @ [c]), (r, cs)) \<in> measure (\<lambda>(r, cs). length (pending r))"
    by simp
qed

text \<open>
  \<open>chunks\<close> returns \<open>([]Chunk, error)\<close>: the chunks appended so far together with the error,
  if any.
\<close>

definition chunks :: "Parser \<Rightarrow> (Chunk list \<times> error option) \<times> Parser" where
  "chunks p0 =
    (case IsPNG p0 of
       ((b, Some err), p1) \<Rightarrow> (([], Some (ErrIO err)), p1)
     | ((b, None), p1) \<Rightarrow>
         if \<not> b then (([], Some ErrNotPNG), p1)
         else
          (case ReadFull 8 (br p1) of
             (Inl err, r) \<Rightarrow> (([], Some (ErrReadHeader (Some err))), p1\<lparr>br := r\<rparr>)
           | (Inr fileHdr, r) \<Rightarrow>
               if length fileHdr \<noteq> 8 then (([], Some (ErrReadHeader None)), p1\<lparr>br := r\<rparr>)
               else (case chunks_loop r [] of (res, r') \<Rightarrow> (res, p1\<lparr>br := r'\<rparr>))))"

definition Parse :: "Parser \<Rightarrow> error option \<times> Parser" where
  "Parse p =
    (case chunks p of
       ((cs, Some err), p') \<Rightarrow> (Some err, p')
     | ((cs, None), p') \<Rightarrow> (None, p'\<lparr>data := cs\<rparr>))"

text \<open>
  \<open>WalkChunks\<close> hands each parsed chunk to the iteratee, which returns whether to go on.
  The iteratee is a closure; \<open>'s\<close> is the state it captures and updates.
\<close>

fun walk :: "(Chunk \<Rightarrow> 's \<Rightarrow> bool \<times> 's) \<Rightarrow> Chunk list \<Rightarrow> 's \<Rightarrow> 's" where
  "walk fn [] s = s"
| "walk fn (ch # chs) s =
    (case fn ch s of (cont, s') \<Rightarrow> if \<not> cont then s' else walk fn chs s')"

definition WalkChunks :: "(Chunk \<Rightarrow> 's \<Rightarrow> bool \<times> 's) \<Rightarrow> Parser \<Rightarrow> 's \<Rightarrow> 's" where
  "WalkChunks fn p s = walk fn (data p) s"

section \<open>StripTags\<close>

text \<open>
  The pipe of \<open>io.Pipe()\<close>: \<open>written\<close> holds the bytes that the write end has accepted, in
  order, which is what the read end delivers; \<open>rclosed\<close> says that the consumer has closed
  the read end, after which \<open>Write\<close> fails. The consumer of \<open>StripTags\<close> (\<open>io.Copy\<close> in
  \<open>main\<close>) never closes it.
\<close>

record pipe =
  written :: "byte list"
  rclosed :: bool

definition Pipe :: pipe where
  "Pipe = \<lparr>written = [], rclosed = False\<rparr>"

datatype writeerr =
    ErrWritePNGHeader error
  | ErrWriteLength error
  | ErrWriteType error
  | ErrWriteData error
  | ErrWriteCRC error

definition Write :: "byte list \<Rightarrow> pipe \<Rightarrow> error option \<times> pipe" where
  "Write bs w =
    (if rclosed w then (Some ErrClosedPipe, w)
     else (None, w\<lparr>written := written w @ bs\<rparr>))"

definition passThrough :: "chunkType \<rightharpoonup> bool" where
  "passThrough =
    [ChunkTypeHeader \<mapsto> True, ChunkTypePalette \<mapsto> True,
     ChunkTypeData \<mapsto> True, ChunkTypeEnd \<mapsto> True]"

text \<open>
  The iteratee of \<open>StripTags\<close>. It captures the write end \<open>w\<close> and the variable \<open>err\<close>.
  \<open>typeBytes\<close> stays \<open>nil\<close> when no case of the switch matches.
\<close>

definition stripChunk :: "Chunk \<Rightarrow> pipe \<times> writeerr option \<Rightarrow> bool \<times> (pipe \<times> writeerr option)" where
  "stripChunk ch s =
    (case s of (w, err) \<Rightarrow>
      if passThrough (Type ch) \<noteq> None then
        (let typeBytes =
           (case Type ch of
              ChunkTypeHeader \<Rightarrow> ctHdr
            | ChunkTypePalette \<Rightarrow> ctPlte
            | ChunkTypeData \<Rightarrow> ctDat
            | ChunkTypeEnd \<Rightarrow> ctEnd
            | _ \<Rightarrow> [])
         in
         case Write (slice4 (Length ch)) w of
           (Some e, w1) \<Rightarrow> (False, (w1, Some (ErrWriteLength e)))
         | (None, w1) \<Rightarrow>
            (case Write typeBytes w1 of
               (Some e, w2) \<Rightarrow> (False, (w2, Some (ErrWriteType e)))
             | (None, w2) \<Rightarrow>
                (case Write (Data ch) w2 of
                   (Some e, w3) \<Rightarrow> (False, (w3, Some (ErrWriteData e)))
                 | (None, w3) \<Rightarrow>
                    (case Write (slice4 (CRC ch)) w3 of
                       (Some e, w4) \<Rightarrow> (False, (w4, Some (ErrWriteCRC e)))
                     | (None, w4) \<Rightarrow> (True, (w4, err))))))
      else (True, (w, err)))"

text \<open>
  \<open>StripTags\<close> returns the read end of the pipe: the result is the bytes that it delivers
  and the error that ends them (\<open>None\<close> for a plain end of file, from
  \<open>w.CloseWithError(nil)\<close>).
\<close>

definition StripTags :: "Parser \<Rightarrow> byte list \<times> writeerr option" where
  "StripTags p =
    (case Write pngHeader Pipe of
       (Some e, w) \<Rightarrow> (written w, Some (ErrWritePNGHeader e))
     | (None, w) \<Rightarrow>
        (case WalkChunks stripChunk p (w, None) of (w', err) \<Rightarrow> (written w', err)))"

section \<open>parseHeader\<close>

text \<open>The slice expression \<open>data[lo:hi]\<close>, for \<open>lo \<le> hi \<le> len(data)\<close>.\<close>

definition sliceOf :: "nat \<Rightarrow> nat \<Rightarrow> byte list \<Rightarrow> byte list" where
  "sliceOf lo hi xs = take (hi - lo) (drop lo xs)"

definition zeroHeader :: headerChunk where
  "zeroHeader = \<lparr>Width = 0, Height = 0, BitDepth = 0, ColorType = 0,
     CompressionMethod = 0, FilterMethod = 0, InterlaceMethod = 0\<rparr>"

text \<open>\<open>parseHeader\<close> returns \<open>(headerChunk, error)\<close>, the zero header with the error.\<close>

definition parseHeader :: "byte list \<Rightarrow> headerChunk \<times> error option" where
  "parseHeader dat =
    (if length dat \<noteq> 13 then (zeroHeader, Some (ErrHeaderSize (length dat) 13))
     else
      (\<lparr>Width = BigEndian_Uint32 (sliceOf 0 4 dat),
        Height = BigEndian_Uint32 (sliceOf 4 8 dat),
        BitDepth = dat ! 8,
        ColorType = dat ! 9,
        CompressionMethod = dat ! 10,
        FilterMethod = dat ! 11,
        InterlaceMethod = dat ! 12\<rparr>, None))"

section \<open>The vocabulary of the specification\<close>

text \<open>The fixed table: the 21 type codes that \<open>getChunkType\<close> compares against, in its order.\<close>

definition codeTable :: "byte list list" where
  "codeTable =
    [ctHdr, ctPlte, ctDat, ctEnd, ctBkgd, ctChrm, ctDSig, ctExif, ctGama, ctHist, ctIccp,
     ctItxt, ctPhys, ctSbit, ctSplt, ctSrgb, ctSter, ctText, ctTime, ctTrns, ctZtxt]"

text \<open>The four critical classifications.\<close>

definition isCritical :: "chunkType \<Rightarrow> bool" where
  "isCritical t \<longleftrightarrow>
    t = ChunkTypeHeader \<or> t = ChunkTypePalette \<or> t = ChunkTypeData \<or> t = ChunkTypeEnd"

text \<open>
  A chunk as it stands on the stream: four bytes of length, four bytes of type code, the
  data, four bytes of CRC. It is well formed when the length field, read big-endian, is the
  number of data bytes. A valid PNG stream is the signature followed by well-formed chunks;
  as the parser does, this asks nothing of the CRC or of the order of the chunks.
\<close>

record rawChunk =
  rLength :: byte4
  rCode :: byte4
  rData :: "byte list"
  rCRC :: byte4

definition wellFormed :: "rawChunk \<Rightarrow> bool" where
  "wellFormed rc \<longleftrightarrow> length (rData rc) = unat (BigEndian_Uint32 (slice4 (rLength rc)))"

definition onWire :: "rawChunk \<Rightarrow> byte list" where
  "onWire rc = slice4 (rLength rc) @ slice4 (rCode rc) @ rData rc @ slice4 (rCRC rc)"

definition pngStream :: "rawChunk list \<Rightarrow> byte list" where
  "pngStream rcs = pngHeader @ concat (map onWire rcs)"

text \<open>The chunk that the parser is expected to build from a chunk on the stream.\<close>

definition parsedChunk :: "rawChunk \<Rightarrow> Chunk" where
  "parsedChunk rc =
    \<lparr>Length = rLength rc, CRC = rCRC rc, Type = getChunkType (slice4 (rCode rc)),
     Data = rData rc\<rparr>"

text \<open>A source that delivers the given bytes and then ends cleanly, such as a file.\<close>

definition fileOf :: "byte list \<Rightarrow> reader" where
  "fileOf bs = \<lparr>pending = bs, ending = EOF\<rparr>"

text \<open>
  Re-emission, in the words of the specification. A \<open>Chunk\<close> keeps the classification of
  its type code, not the code; the code that can be written back for a classification is the
  one entry of the fixed table that \<open>getChunkType\<close> maps to it, and \<open>ChunkTypeUnknown\<close> has
  none. \<open>reemit\<close> writes length, type code, data and CRC; \<open>reemitAll\<close> puts the signature
  in front; \<open>strip_spec\<close> is the stripped stream of the specification: the signature and
  the critical chunks only.
\<close>

fun typeCode :: "chunkType \<Rightarrow> byte list" where
  "typeCode ChunkTypeHeader = ctHdr"
| "typeCode ChunkTypePalette = ctPlte"
| "typeCode ChunkTypeData = ctDat"
| "typeCode ChunkTypeEnd = ctEnd"
| "typeCode ChunkTypeBkgdColor = ctBkgd"
| "typeCode ChunkTypeChromaticity = ctChrm"
| "typeCode ChunkTypeDigiSignal = ctDSig"
| "typeCode ChunkTypeExif = ctExif"
| "typeCode ChunkTypeGamma = ctGama"
| "typeCode ChunkTypeHistogram = ctHist"
| "typeCode ChunkTypeICC = ctIccp"
| "typeCode ChunkTypeTxtUTF8 = ctItxt"
| "typeCode ChunkTypePxSize = ctPhys"
| "typeCode ChunkTypeSigBits = ctSbit"
| "typeCode ChunkTypeSugPalette = ctSplt"
| "typeCode ChunkTypeRGB = ctSrgb"
| "typeCode ChunkTypeStereo = ctSter"
| "typeCode ChunkTypeTxtISO8859 = ctText"
| "typeCode ChunkTypeTimeChanged = ctTime"
| "typeCode ChunkTypeTransparency = ctTrns"
| "typeCode ChunkTypeTxtCompressed = ctZtxt"
| "typeCode ChunkTypeUnknown = []"

definition reemit :: "Chunk \<Rightarrow> byte list" where
  "reemit c = slice4 (Length c) @ typeCode (Type c) @ Data c @ slice4 (CRC c)"

definition reemitAll :: "Chunk list \<Rightarrow> byte list" where
  "reemitAll cs = pngHeader @ concat (map reemit cs)"

definition strip_spec :: "Chunk list \<Rightarrow> byte list" where
  "strip_spec cs = reemitAll (filter (\<lambda>c. isCritical (Type c)) cs)"

text \<open>A parsed chunk whose data has the length that its length field declares.\<close>

definition consistent :: "Chunk \<Rightarrow> bool" where
  "consistent c \<longleftrightarrow> length (Data c) = unat (BigEndian_Uint32 (slice4 (Length c)))"

text \<open>The chunk on the stream that \<open>reemit\<close> writes for a parsed chunk.\<close>

definition toRaw :: "Chunk \<Rightarrow> rawChunk" where
  "toRaw c =
    \<lparr>rLength = Length c, rCode = array4 (typeCode (Type c)), rData = Data c, rCRC = CRC c\<rparr>"

section \<open>Example streams\<close>

text \<open>
  A 16 by 32 RGBA image of the specification's examples: header (payload
  \<open>00000010 00000020 08 06 00 00 00\<close>), a text chunk \<open>tEXt\<close> with the five bytes
  \<open>hello\<close>, the image data and the end marker, each with its CRC-32. \<open>exOFFs\<close> is a chunk
  of a registered type that the fixed table does not have, and \<open>exPCAL\<close> is the same bytes
  under another such type code.
\<close>

definition exIHDR :: rawChunk where
  "exIHDR = \<lparr>rLength = (0x00, 0x00, 0x00, 0x0d), rCode = array4 (ascii ''IHDR''),
     rData = [0x00, 0x00, 0x00, 0x10, 0x00, 0x00, 0x00, 0x20, 0x08, 0x06, 0x00, 0x00, 0x00],
     rCRC = (0x1b, 0x89, 0xf8, 0xcc)\<rparr>"

definition exTEXt :: rawChunk where
  "exTEXt = \<lparr>rLength = (0x00, 0x00, 0x00, 0x05), rCode = array4 (ascii ''tEXt''),
     rData = ascii ''hello'', rCRC = (0x5a, 0x80, 0xf3, 0x62)\<rparr>"

definition exIDAT :: rawChunk where
  "exIDAT = \<lparr>rLength = (0x00, 0x00, 0x00, 0x18), rCode = array4 (ascii ''IDAT''),
     rData = [0x78, 0xda, 0x63, 0x60, 0x18, 0x05, 0xa3, 0x60, 0x14, 0x8c, 0x82, 0x51,
              0x30, 0x0a, 0x46, 0xc1, 0x28, 0x40, 0x05, 0x00, 0x08, 0x20, 0x00, 0x01],
     rCRC = (0x4e, 0xd1, 0xdb, 0xf7)\<rparr>"

definition exIEND :: rawChunk where
  "exIEND = \<lparr>rLength = (0x00, 0x00, 0x00, 0x00), rCode = array4 (ascii ''IEND''),
     rData = [], rCRC = (0xae, 0x42, 0x60, 0x82)\<rparr>"

definition exOFFs :: rawChunk where
  "exOFFs = \<lparr>rLength = (0x00, 0x00, 0x00, 0x09), rCode = array4 (ascii ''oFFs''),
     rData = [0x00, 0x00, 0x00, 0x01, 0x00, 0x00, 0x00, 0x02, 0x00],
     rCRC = (0x23, 0x40, 0x07, 0xe9)\<rparr>"

definition exPCAL :: rawChunk where
  "exPCAL = exOFFs\<lparr>rCode := array4 (ascii ''pCAL'')\<rparr>"

definition examplePNG :: "rawChunk list" where
  "examplePNG = [exIHDR, exTEXt, exIDAT, exIEND]"

lemmas ex_defs =
  examplePNG_def exIHDR_def exTEXt_def exIDAT_def exIEND_def exOFFs_def exPCAL_def

section \<open>Reading from the source\<close>

declare chunks_loop.simps [simp del]

lemma length_slice4 [simp]: "length (slice4 a) = 4"
  by (cases a) simp

lemma array4_slice4 [simp]: "array4 (slice4 a) = a"
  by (cases a) simp

lemma array4_slice4_append [simp]: "array4 (slice4 a @ xs) = a"
  by (cases a) simp

lemma length_pngHeader [simp]: "length pngHeader = 8"
  by (simp add: pngHeader_def)

lemma ReadFull_append:
  "length xs = n \<Longrightarrow>
    ReadFull n \<lparr>pending = xs @ rest, ending = e\<rparr> = (Inr xs, \<lparr>pending = rest, ending = e\<rparr>)"
  by (simp add: ReadFull_def)

lemma ReadFull_short:
  "xs \<noteq> [] \<Longrightarrow> length xs < n \<Longrightarrow>
    ReadFull n \<lparr>pending = xs, ending = EOF\<rparr>
      = (Inl ErrUnexpectedEOF, \<lparr>pending = [], ending = EOF\<rparr>)"
  by (simp add: ReadFull_def)

lemma ReadFull_at_end:
  "0 < n \<Longrightarrow> ReadFull n \<lparr>pending = [], ending = e\<rparr> = (Inl e, \<lparr>pending = [], ending = e\<rparr>)"
  by (simp add: ReadFull_def)

text \<open>One round of the loop on a well-formed chunk reads exactly that chunk.\<close>

lemma chunks_body_onWire:
  assumes "wellFormed rc"
  shows "chunks_body \<lparr>pending = onWire rc @ rest, ending = e\<rparr>
    = (Append (parsedChunk rc), \<lparr>pending = rest, ending = e\<rparr>)"
proof -
  have len: "length (rData rc) = unat (BigEndian_Uint32 (slice4 (rLength rc)))"
    using assms by (simp add: wellFormed_def)
  show ?thesis
    unfolding chunks_body_def onWire_def
    by (simp add: ReadFull_append len [symmetric] parsedChunk_def)
qed

text \<open>The loop reads a run of well-formed chunks and goes on with what follows them.\<close>

lemma chunks_loop_onWire:
  assumes "list_all wellFormed rcs"
  shows "chunks_loop \<lparr>pending = concat (map onWire rcs) @ rest, ending = e\<rparr> acc
    = chunks_loop \<lparr>pending = rest, ending = e\<rparr> (acc @ map parsedChunk rcs)"
  using assms
proof (induction rcs arbitrary: acc)
  case Nil
  then show ?case by simp
next
  case (Cons rc rcs)
  then have wf: "wellFormed rc" and rest: "list_all wellFormed rcs"
    by simp_all
  have "chunks_loop \<lparr>pending = concat (map onWire (rc # rcs)) @ rest, ending = e\<rparr> acc
      = chunks_loop \<lparr>pending = concat (map onWire rcs) @ rest, ending = e\<rparr>
          (acc @ [parsedChunk rc])"
    by (subst chunks_loop.simps) (simp add: chunks_body_onWire [OF wf])
  also have "\<dots> = chunks_loop \<lparr>pending = rest, ending = e\<rparr>
      ((acc @ [parsedChunk rc]) @ map parsedChunk rcs)"
    by (rule Cons.IH [OF rest])
  finally show ?case by simp
qed

lemma chunks_loop_EOF:
  "chunks_loop \<lparr>pending = [], ending = EOF\<rparr> acc
    = ((acc, None), \<lparr>pending = [], ending = EOF\<rparr>)"
  by (subst chunks_loop.simps) (simp add: chunks_body_def ReadFull_def)

text \<open>After a good signature, \<open>chunks\<close> is the loop on the rest of the input.\<close>

lemma chunks_signature:
  "chunks \<lparr>Path = path, br = \<lparr>pending = pngHeader @ body, ending = e\<rparr>, data = d\<rparr>
    = (case chunks_loop \<lparr>pending = body, ending = e\<rparr> [] of
         (res, r') \<Rightarrow> (res, \<lparr>Path = path, br = r', data = d\<rparr>))"
  by (simp add: chunks_def IsPNG_def Peek_def ReadFull_def)

lemma Parse_pngStream:
  assumes "list_all wellFormed rcs"
  shows "Parse (New path (fileOf (pngStream rcs)))
    = (None, \<lparr>Path = path, br = fileOf [], data = map parsedChunk rcs\<rparr>)"
proof -
  have "chunks_loop \<lparr>pending = concat (map onWire rcs) @ [], ending = EOF\<rparr> []
      = ((map parsedChunk rcs, None), \<lparr>pending = [], ending = EOF\<rparr>)"
    unfolding chunks_loop_onWire [OF assms] by (simp add: chunks_loop_EOF)
  then show ?thesis
    by (simp add: Parse_def New_def fileOf_def pngStream_def chunks_signature)
qed

lemma wellFormed_examplePNG: "list_all wellFormed examplePNG"
  by (simp add: ex_defs wellFormed_def ascii_def)

section \<open>Classification of type codes\<close>

text \<open>
  Claim C6. \<open>getChunkType\<close> is a function of the type code alone, defined on every byte
  slice: the 21 codes of the fixed table, which are distinct, map in order to the four
  critical and seventeen ancillary chunk types, each being the type whose printed name
  starts with that code, and every code that is not in the table maps to
  \<open>ChunkTypeUnknown\<close>.
\<close>

theorem getChunkType_total:
  "map getChunkType codeTable =
    [ChunkTypeHeader, ChunkTypePalette, ChunkTypeData, ChunkTypeEnd, ChunkTypeBkgdColor,
     ChunkTypeChromaticity, ChunkTypeDigiSignal, ChunkTypeExif, ChunkTypeGamma,
     ChunkTypeHistogram, ChunkTypeICC, ChunkTypeTxtUTF8, ChunkTypePxSize, ChunkTypeSigBits,
     ChunkTypeSugPalette, ChunkTypeRGB, ChunkTypeStereo, ChunkTypeTxtISO8859,
     ChunkTypeTimeChanged, ChunkTypeTransparency, ChunkTypeTxtCompressed]
   \<and> map (\<lambda>ct. ascii (take 4 (String (getChunkType ct)))) codeTable = codeTable
   \<and> length codeTable = 21 \<and> distinct codeTable
   \<and> (ct \<notin> set codeTable \<longrightarrow> getChunkType ct = ChunkTypeUnknown)"
  by (simp add: codeTable_def getChunkType_def ct_defs ascii_def)

theorem getChunkType_total_witness:
  "ascii ''oFFs'' \<notin> set codeTable \<and> getChunkType (ascii ''oFFs'') = ChunkTypeUnknown
   \<and> [] \<notin> set codeTable \<and> getChunkType [] = ChunkTypeUnknown"
  using getChunkType_total [of "ascii ''oFFs''"] getChunkType_total [of "[]"]
  by (simp add: codeTable_def ct_defs ascii_def)

section \<open>Decoding the header fields\<close>

lemma or_push_bit_nat:
  fixes x y :: nat
  assumes "x < 2 ^ n"
  shows "x OR push_bit n y = x + y * 2 ^ n"
proof -
  have "x AND push_bit n y = 0"
  proof (rule bit_eqI)
    fix m
    show "bit (x AND push_bit n y) m = bit (0::nat) m"
      using assms
      by (auto simp: bit_simps dest: bit_imp_le_length) (metis bit_take_bit_iff take_bit_nat_eq_self_iff not_le)
  qed
  then have "x + push_bit n y = x OR push_bit n y"
    by (rule disjunctive_add_eq_or)
  then show ?thesis
    by (simp add: push_bit_eq_mult)
qed

lemma unat_byte_lt: "unat (b::byte) < 256"
  using unsigned_less [of b, where ?'a = nat] by simp

lemma take_bit_shifted_byte:
  fixes x :: nat
  assumes "x < 256" and "k \<le> 24"
  shows "take_bit 32 (push_bit k x) = push_bit k x"
proof -
  have "(2::nat) ^ k \<le> 2 ^ 24"
    using assms by (intro power_increasing) simp_all
  then have "x * 2 ^ k < 2 ^ 8 * 2 ^ 24"
    using assms by (intro mult_less_le_imp_less) simp_all
  then have "push_bit k x < 2 ^ 32"
    by (simp add: push_bit_eq_mult)
  then show ?thesis
    by (simp add: take_bit_nat_eq_self)
qed

lemma unat_BigEndian_Uint32:
  "unat (BigEndian_Uint32 (a # b # c # d # xs))
    = unat a * 2 ^ 24 + unat b * 2 ^ 16 + unat c * 2 ^ 8 + unat d"
proof -
  have a: "unat a < 256" and b: "unat b < 256" and c: "unat c < 256" and d: "unat d < 256"
    by (rule unat_byte_lt)+
  have "unat (BigEndian_Uint32 (a # b # c # d # xs))
      = take_bit 32 (unat d) OR take_bit 32 (push_bit 8 (take_bit 32 (unat c))) OR
        take_bit 32 (push_bit 16 (take_bit 32 (unat b))) OR
        take_bit 32 (push_bit 24 (take_bit 32 (unat a)))"
    by (simp add: unsigned_or_eq unsigned_push_bit_eq unsigned_ucast_eq)
  also have "\<dots> = ((unat d OR push_bit 8 (unat c)) OR push_bit 16 (unat b)) OR push_bit 24 (unat a)"
    using a b c d by (simp add: take_bit_shifted_byte take_bit_nat_eq_self or.assoc)
  also have "unat d OR push_bit 8 (unat c) = unat d + unat c * 2 ^ 8"
    using d by (intro or_push_bit_nat) simp
  also have "(unat d + unat c * 2 ^ 8) OR push_bit 16 (unat b) = unat d + unat c * 2 ^ 8 + unat b * 2 ^ 16"
    using c d by (intro or_push_bit_nat) simp
  also have "(unat d + unat c * 2 ^ 8 + unat b * 2 ^ 16) OR push_bit 24 (unat a)
      = unat d + unat c * 2 ^ 8 + unat b * 2 ^ 16 + unat a * 2 ^ 24"
    using b c d by (intro or_push_bit_nat) simp
  finally show ?thesis
    by simp
qed

lemma length_13:
  "length (dat :: byte list) = 13 \<Longrightarrow>
    \<exists>b0 b1 b2 b3 b4 b5 b6 b7 b8 b9 b10 b11 b12.
      dat = [b0, b1, b2, b3, b4, b5, b6, b7, b8, b9, b10, b11, b12]"
  by (auto simp add: eval_nat_numeral length_Suc_conv)

text \<open>
  Claim C7. \<open>parseHeader\<close> returns an error exactly when the data is not 13 bytes long. On
  13 bytes it returns no error, the width and the height are the big-endian values of bytes
  0 to 3 and 4 to 7, and bit depth, colour type, compression, filter and interlace method
  are the bytes at offsets 8 to 12. The payload \<open>00000010 00000020 08 06 00 00 00\<close>
  decodes to width 16, height 32, bit depth 8 and colour type 6.
\<close>

theorem parseHeader_decodes:
  "(snd (parseHeader dat) \<noteq> None) = (length dat \<noteq> 13)
   \<and> (length dat = 13 \<longrightarrow>
        snd (parseHeader dat) = None
      \<and> unat (Width (fst (parseHeader dat)))
          = unat (dat ! 0) * 2 ^ 24 + unat (dat ! 1) * 2 ^ 16 + unat (dat ! 2) * 2 ^ 8 + unat (dat ! 3)
      \<and> unat (Height (fst (parseHeader dat)))
          = unat (dat ! 4) * 2 ^ 24 + unat (dat ! 5) * 2 ^ 16 + unat (dat ! 6) * 2 ^ 8 + unat (dat ! 7)
      \<and> BitDepth (fst (parseHeader dat)) = dat ! 8
      \<and> ColorType (fst (parseHeader dat)) = dat ! 9
      \<and> CompressionMethod (fst (parseHeader dat)) = dat ! 10
      \<and> FilterMethod (fst (parseHeader dat)) = dat ! 11
      \<and> InterlaceMethod (fst (parseHeader dat)) = dat ! 12)
   \<and> parseHeader [0x00, 0x00, 0x00, 0x10, 0x00, 0x00, 0x00, 0x20, 0x08, 0x06, 0x00, 0x00, 0x00]
        = (\<lparr>Width = 16, Height = 32, BitDepth = 8, ColorType = 6, CompressionMethod = 0,
            FilterMethod = 0, InterlaceMethod = 0\<rparr>, None)"
proof (intro conjI impI)
  show "(snd (parseHeader dat) \<noteq> None) = (length dat \<noteq> 13)"
    by (simp add: parseHeader_def)
next
  assume len: "length dat = 13"
  then obtain b0 b1 b2 b3 b4 b5 b6 b7 b8 b9 b10 b11 b12
    where dat: "dat = [b0, b1, b2, b3, b4, b5, b6, b7, b8, b9, b10, b11, b12]"
    using length_13 [OF len] by (elim exE)
  show "snd (parseHeader dat) = None"
    using len by (simp add: parseHeader_def)
  show "unat (Width (fst (parseHeader dat)))
      = unat (dat ! 0) * 2 ^ 24 + unat (dat ! 1) * 2 ^ 16 + unat (dat ! 2) * 2 ^ 8 + unat (dat ! 3)"
    unfolding dat by (simp add: parseHeader_def sliceOf_def unat_BigEndian_Uint32 del: BigEndian_Uint32.simps)
  show "unat (Height (fst (parseHeader dat)))
      = unat (dat ! 4) * 2 ^ 24 + unat (dat ! 5) * 2 ^ 16 + unat (dat ! 6) * 2 ^ 8 + unat (dat ! 7)"
    unfolding dat by (simp add: parseHeader_def sliceOf_def unat_BigEndian_Uint32 del: BigEndian_Uint32.simps)
  show "BitDepth (fst (parseHeader dat)) = dat ! 8"
    and "ColorType (fst (parseHeader dat)) = dat ! 9"
    and "CompressionMethod (fst (parseHeader dat)) = dat ! 10"
    and "FilterMethod (fst (parseHeader dat)) = dat ! 11"
    and "InterlaceMethod (fst (parseHeader dat)) = dat ! 12"
    using len by (simp_all add: parseHeader_def)
next
  show "parseHeader [0x00, 0x00, 0x00, 0x10, 0x00, 0x00, 0x00, 0x20, 0x08, 0x06, 0x00, 0x00, 0x00]
        = (\<lparr>Width = 16, Height = 32, BitDepth = 8, ColorType = 6, CompressionMethod = 0,
            FilterMethod = 0, InterlaceMethod = 0\<rparr>, None)"
    by (simp add: parseHeader_def sliceOf_def)
qed

theorem parseHeader_decodes_witness:
  "length [0x00, 0x00, 0x01, 0x00, 0x00, 0x00, 0x02, 0x03, 0x10, 0x02, 0x00, 0x00, 0x01 :: byte] = 13
   \<and> snd (parseHeader [0x00, 0x00, 0x01, 0x00, 0x00, 0x00, 0x02, 0x03, 0x10, 0x02, 0x00, 0x00, 0x01]) = None
   \<and> unat (Width (fst (parseHeader [0x00, 0x00, 0x01, 0x00, 0x00, 0x00, 0x02, 0x03, 0x10, 0x02, 0x00, 0x00, 0x01]))) = 256
   \<and> unat (Height (fst (parseHeader [0x00, 0x00, 0x01, 0x00, 0x00, 0x00, 0x02, 0x03, 0x10, 0x02, 0x00, 0x00, 0x01]))) = 515
   \<and> BitDepth (fst (parseHeader [0x00, 0x00, 0x01, 0x00, 0x00, 0x00, 0x02, 0x03, 0x10, 0x02, 0x00, 0x00, 0x01])) = 16
   \<and> InterlaceMethod (fst (parseHeader [0x00, 0x00, 0x01, 0x00, 0x00, 0x00, 0x02, 0x03, 0x10, 0x02, 0x00, 0x00, 0x01])) = 1"
  using parseHeader_decodes [of "[0x00, 0x00, 0x01, 0x00, 0x00, 0x00, 0x02, 0x03, 0x10, 0x02, 0x00, 0x00, 0x01]"]
  by simp

section \<open>The signature check and the parser's state\<close>

text \<open>
  Claim C8. \<open>IsPNG\<close> leaves the parser, and with it the read position, as it found it: a
  second call gives the result of the first, and \<open>Parse\<close> after it does what \<open>Parse\<close>
  without it does, on the whole input with its signature.
\<close>

theorem IsPNG_does_not_advance:
  "snd (IsPNG p) = p
   \<and> fst (IsPNG (snd (IsPNG p))) = fst (IsPNG p)
   \<and> Parse (snd (IsPNG p)) = Parse p"
  by (simp add: IsPNG_def Peek_def)

theorem IsPNG_does_not_advance_witness:
  "fst (IsPNG (snd (IsPNG (New ''a.png'' (fileOf (pngStream examplePNG)))))) = (True, None)
   \<and> Parse (snd (IsPNG (New ''a.png'' (fileOf (pngStream examplePNG)))))
     = (None, \<lparr>Path = ''a.png'', br = fileOf [], data = map parsedChunk examplePNG\<rparr>)"
proof -
  have "Parse (New ''a.png'' (fileOf (pngStream examplePNG)))
      = (None, \<lparr>Path = ''a.png'', br = fileOf [], data = map parsedChunk examplePNG\<rparr>)"
    using wellFormed_examplePNG by (rule Parse_pngStream)
  moreover have "fst (IsPNG (New ''a.png'' (fileOf (pngStream examplePNG)))) = (True, None)"
    by (simp add: IsPNG_def Peek_def New_def fileOf_def pngStream_def)
  ultimately show ?thesis
    using IsPNG_does_not_advance [of "New ''a.png'' (fileOf (pngStream examplePNG))"]
    by simp
qed

text \<open>
  Claim C9. When the input has eight bytes to compare and they are not the PNG signature,
  \<open>chunks\<close> returns no chunk and the error \<open>ErrNotPNG\<close>, so \<open>Parse\<close> fails with it, and
  the parser is as before: nothing was consumed. (With fewer than eight bytes the error is
  that of the source, \<open>ErrIO\<close>.)
\<close>

theorem chunks_not_a_png:
  assumes "8 \<le> length (pending (br p))" and "take 8 (pending (br p)) \<noteq> pngHeader"
  shows "chunks p = (([], Some ErrNotPNG), p) \<and> Parse p = (Some ErrNotPNG, p)"
  using assms by (auto simp add: Parse_def chunks_def IsPNG_def Peek_def)

theorem chunks_not_a_png_witness:
  "8 \<le> length (pending (br (New ''notes.txt'' (fileOf (ascii ''hello world'')))))
   \<and> take 8 (pending (br (New ''notes.txt'' (fileOf (ascii ''hello world''))))) \<noteq> pngHeader
   \<and> Parse (New ''notes.txt'' (fileOf (ascii ''hello world'')))
       = (Some ErrNotPNG, New ''notes.txt'' (fileOf (ascii ''hello world'')))"
proof -
  have h1: "8 \<le> length (pending (br (New ''notes.txt'' (fileOf (ascii ''hello world'')))))"
    by (simp add: New_def fileOf_def ascii_def)
  have h2: "take 8 (pending (br (New ''notes.txt'' (fileOf (ascii ''hello world''))))) \<noteq> pngHeader"
    by (simp add: New_def fileOf_def ascii_def pngHeader_def)
  show ?thesis
    using h1 h2 chunks_not_a_png [OF h1 h2] by simp
qed

text \<open>With fewer than eight bytes to peek at, the error is that of the source.\<close>

lemma chunks_short_input:
  "length (pending (br p)) < 8 \<Longrightarrow> chunks p = (([], Some (ErrIO (ending (br p)))), p)"
  by (simp add: chunks_def IsPNG_def Peek_def)

lemma data_chunks: "data (snd (chunks p)) = data p"
  by (simp add: chunks_def IsPNG_def Peek_def split: prod.splits sum.splits)

text \<open>
  Claim C10. \<open>Parse\<close> stores the chunks only when \<open>chunks\<close> returns no error: when
  \<open>Parse\<close> returns an error, the stored chunks are those from before the call; when it
  succeeds, they are the chunks that \<open>chunks\<close> returned.
\<close>

theorem Parse_atomic:
  "(Parse p = (Some err, p') \<longrightarrow> data p' = data p \<and> snd (fst (chunks p)) = Some err)
   \<and> (Parse p = (None, p') \<longrightarrow> data p' = fst (fst (chunks p)) \<and> snd (fst (chunks p)) = None)"
  using data_chunks [of p]
  by (auto simp add: Parse_def split: prod.splits option.splits)

theorem Parse_atomic_witness:
  "Parse \<lparr>Path = ''a.png'', br = fileOf [], data = map parsedChunk examplePNG\<rparr>
     = (Some (ErrIO EOF), \<lparr>Path = ''a.png'', br = fileOf [], data = map parsedChunk examplePNG\<rparr>)
   \<and> snd (fst (chunks \<lparr>Path = ''a.png'', br = fileOf [], data = map parsedChunk examplePNG\<rparr>))
     = Some (ErrIO EOF)
   \<and> Parse (New ''a.png'' (fileOf (pngStream examplePNG)))
     = (None, \<lparr>Path = ''a.png'', br = fileOf [], data = map parsedChunk examplePNG\<rparr>)
   \<and> fst (fst (chunks (New ''a.png'' (fileOf (pngStream examplePNG))))) = map parsedChunk examplePNG"
proof -
  let ?q = "\<lparr>Path = ''a.png'', br = fileOf [], data = map parsedChunk examplePNG\<rparr>"
  have again: "Parse ?q = (Some (ErrIO EOF), ?q)"
    by (simp add: Parse_def chunks_def IsPNG_def Peek_def fileOf_def)
  have first: "Parse (New ''a.png'' (fileOf (pngStream examplePNG))) = (None, ?q)"
    using wellFormed_examplePNG by (rule Parse_pngStream)
  show ?thesis
    using again first
      Parse_atomic [of ?q "ErrIO EOF" ?q]
      Parse_atomic [of "New ''a.png'' (fileOf (pngStream examplePNG))" _ ?q]
    by simp
qed

section \<open>Stripping\<close>

text \<open>While the read end of the pipe is open, every write succeeds and the walk never stops early.\<close>

lemma stripChunk_open:
  assumes "\<not> rclosed w"
  shows "stripChunk ch (w, err)
    = (True, (w\<lparr>written := written w @ (if isCritical (Type ch) then reemit ch else [])\<rparr>, err))"
  using assms
  by (cases "Type ch")
    (simp_all add: stripChunk_def passThrough_def isCritical_def Write_def reemit_def)

lemma walk_stripChunk:
  assumes "\<not> rclosed w"
  shows "walk stripChunk cs (w, err)
    = (w\<lparr>written := written w @ concat (map reemit (filter (\<lambda>c. isCritical (Type c)) cs))\<rparr>,
       err)"
  using assms
proof (induction cs arbitrary: w)
  case Nil
  then show ?case by simp
next
  case (Cons ch cs)
  let ?w = "w\<lparr>written := written w @ (if isCritical (Type ch) then reemit ch else [])\<rparr>"
  have "\<not> rclosed ?w"
    using Cons.prems by simp
  then have "walk stripChunk cs (?w, err)
      = (?w\<lparr>written := written ?w @ concat (map reemit (filter (\<lambda>c. isCritical (Type c)) cs))\<rparr>,
         err)"
    by (rule Cons.IH)
  then show ?case
    using Cons.prems by (simp add: stripChunk_open)
qed

lemma StripTags_eq: "StripTags p = (strip_spec (data p), None)"
  by (simp add: StripTags_def Write_def Pipe_def WalkChunks_def walk_stripChunk strip_spec_def
      reemitAll_def)

text \<open>
  Claim C1. For every parser state, whatever chunks it holds, the stream that \<open>StripTags\<close>
  produces ends without error and is the 8-byte signature followed by the chunks whose type
  is \<open>ChunkTypeHeader\<close>, \<open>ChunkTypePalette\<close>, \<open>ChunkTypeData\<close> or \<open>ChunkTypeEnd\<close>, in
  their order in the document and with nothing of the other chunks. Each is written as its
  4-byte length, the 4-byte code \<open>IHDR\<close>, \<open>PLTE\<close>, \<open>IDAT\<close> or \<open>IEND\<close> of its type, its
  data, and its 4-byte CRC as stored.
\<close>

theorem StripTags_critical_only:
  "StripTags p = (pngHeader @ concat (map reemit (filter (\<lambda>c. isCritical (Type c)) (data p))), None)
   \<and> fst (StripTags p) = strip_spec (data p)
   \<and> reemit c = slice4 (Length c) @ typeCode (Type c) @ Data c @ slice4 (CRC c)
   \<and> length pngHeader = 8 \<and> length (slice4 (Length c)) = 4 \<and> length (slice4 (CRC c)) = 4
   \<and> isCritical t = (t \<in> {ChunkTypeHeader, ChunkTypePalette, ChunkTypeData, ChunkTypeEnd})
   \<and> map typeCode [ChunkTypeHeader, ChunkTypePalette, ChunkTypeData, ChunkTypeEnd]
       = [ascii ''IHDR'', ascii ''PLTE'', ascii ''IDAT'', ascii ''IEND'']"
  by (simp add: StripTags_eq strip_spec_def reemitAll_def reemit_def isCritical_def ct_defs)

theorem StripTags_critical_only_witness:
  "StripTags \<lparr>Path = ''a.png'', br = fileOf [], data = map parsedChunk examplePNG\<rparr>
     = (pngStream [exIHDR, exIDAT, exIEND], None)
   \<and> map Type (map parsedChunk examplePNG)
     = [ChunkTypeHeader, ChunkTypeTxtISO8859, ChunkTypeData, ChunkTypeEnd]"
  using StripTags_critical_only
    [of "\<lparr>Path = ''a.png'', br = fileOf [], data = map parsedChunk examplePNG\<rparr>"]
  by (simp add: ex_defs pngStream_def onWire_def parsedChunk_def reemit_def isCritical_def
      getChunkType_def ct_defs ascii_def)

section \<open>Parsed documents and the codes of their chunks\<close>

text \<open>
  The codes of the table are four bytes long and \<open>typeCode\<close> inverts \<open>getChunkType\<close> on
  them; every chunk that the loop appends has as many data bytes as its length field says.
\<close>

lemma slice4_array4: "length xs = 4 \<Longrightarrow> slice4 (array4 xs) = xs"
  by (auto simp add: eval_nat_numeral length_Suc_conv)

lemma typeCode_known:
  "t \<noteq> ChunkTypeUnknown \<Longrightarrow> length (typeCode t) = 4 \<and> getChunkType (typeCode t) = t"
  by (cases t) (simp_all add: getChunkType_def ct_defs ascii_def)

lemma typeCode_getChunkType:
  "ct \<in> set codeTable \<Longrightarrow> typeCode (getChunkType ct) = ct"
  by (auto simp add: codeTable_def getChunkType_def ct_defs ascii_def)

lemma onWire_toRaw: "Type c \<noteq> ChunkTypeUnknown \<Longrightarrow> onWire (toRaw c) = reemit c"
  by (simp add: onWire_def toRaw_def reemit_def slice4_array4 typeCode_known)

lemma parsedChunk_toRaw: "Type c \<noteq> ChunkTypeUnknown \<Longrightarrow> parsedChunk (toRaw c) = c"
  by (simp add: parsedChunk_def toRaw_def slice4_array4 typeCode_known)

lemma wellFormed_toRaw: "wellFormed (toRaw c) = consistent c"
  by (simp add: wellFormed_def consistent_def toRaw_def)

lemma reemit_parsedChunk:
  "slice4 (rCode rc) \<in> set codeTable \<Longrightarrow> reemit (parsedChunk rc) = onWire rc"
  by (simp add: reemit_def parsedChunk_def onWire_def typeCode_getChunkType)

lemma chunks_body_consistent:
  "chunks_body r = (Append c, r') \<Longrightarrow> consistent c"
  by (auto simp add: chunks_body_def ReadFull_def Let_def consistent_def
      split: if_splits)

lemma chunks_loop_consistent:
  "chunks_loop r acc = ((cs, e), r') \<Longrightarrow> list_all consistent acc \<Longrightarrow> list_all consistent cs"
proof (induction r acc rule: chunks_loop.induct)
  case (1 r acc)
  obtain s r1 where body: "chunks_body r = (s, r1)"
    by (cases "chunks_body r")
  show ?case
  proof (cases s)
    case Break
    with body "1.prems" show ?thesis
      by (simp add: chunks_loop.simps [of r])
  next
    case (Return err)
    with body "1.prems" show ?thesis
      by (simp add: chunks_loop.simps [of r])
  next
    case (Append c)
    with body have b: "chunks_body r = (Append c, r1)"
      by simp
    then have "consistent c"
      by (rule chunks_body_consistent)
    moreover have "chunks_loop r1 (acc @ [c]) = ((cs, e), r')"
      using "1.prems"(1) b by (simp add: chunks_loop.simps [of r])
    ultimately show ?thesis
      using "1.IH" [OF b [symmetric] refl] "1.prems"(2) by simp
  qed
qed

lemma Parse_consistent:
  assumes "Parse p = (None, p')"
  shows "list_all consistent (data p')"
proof -
  obtain cs q where c: "chunks p = ((cs, None), q)" and d: "data p' = cs"
    using assms by (auto simp add: Parse_def split: prod.splits option.splits)
  have "list_all consistent cs"
    using c
    by (auto simp add: chunks_def IsPNG_def Peek_def split: if_splits prod.splits sum.splits
        dest: chunks_loop_consistent)
  with d show ?thesis by simp
qed

section \<open>Round trip\<close>

text \<open>
  Claim C2, as amended. For every valid PNG stream whose chunks all have a type code of the
  fixed table, \<open>Parse\<close> succeeds, and re-emitting each parsed chunk (its 4-byte length, the
  table's code for its type, its data and its 4-byte CRC) after the signature gives the
  input back. The claim as stated, for every valid stream, fails: \<open>Chunk\<close> stores the
  classification and not the code, so a chunk with a code outside the table is parsed as
  \<open>ChunkTypeUnknown\<close> and its code is lost.
\<close>

theorem reemit_known_roundtrip:
  assumes "list_all wellFormed rcs"
    and "list_all (\<lambda>rc. slice4 (rCode rc) \<in> set codeTable) rcs"
  shows "\<exists>q. Parse (New path (fileOf (pngStream rcs))) = (None, q)
    \<and> reemitAll (data q) = pngStream rcs"
proof -
  have "concat (map reemit (map parsedChunk rcs)) = concat (map onWire rcs)"
    using assms(2) by (induction rcs) (simp_all add: reemit_parsedChunk)
  then have "reemitAll (map parsedChunk rcs) = pngStream rcs"
    by (simp only: reemitAll_def pngStream_def)
  then show ?thesis
    using Parse_pngStream [OF assms(1), of path] by simp
qed

theorem reemit_known_roundtrip_witness:
  "list_all wellFormed examplePNG
   \<and> list_all (\<lambda>rc. slice4 (rCode rc) \<in> set codeTable) examplePNG
   \<and> (\<exists>q. Parse (New ''a.png'' (fileOf (pngStream examplePNG))) = (None, q)
        \<and> reemitAll (data q) = pngStream examplePNG)"
proof -
  have known: "list_all (\<lambda>rc. slice4 (rCode rc) \<in> set codeTable) examplePNG"
    by (simp add: ex_defs codeTable_def ct_defs ascii_def)
  show ?thesis
    using wellFormed_examplePNG known
      reemit_known_roundtrip [OF wellFormed_examplePNG known, of "''a.png''"]
    by simp
qed

text \<open>
  The counterexample to C2 as stated: two valid streams that differ in the type code of one
  chunk (\<open>oFFs\<close> against \<open>pCAL\<close>) and are parsed to the same document, so that nothing
  computed from the parsed chunks gives back both; and re-emitting the chunks parsed from
  the first does not give it back.
\<close>

theorem roundtrip_counterexample:
  "list_all wellFormed [exIHDR, exOFFs, exIDAT, exIEND]
   \<and> list_all wellFormed [exIHDR, exPCAL, exIDAT, exIEND]
   \<and> pngStream [exIHDR, exOFFs, exIDAT, exIEND] \<noteq> pngStream [exIHDR, exPCAL, exIDAT, exIEND]
   \<and> Parse (New ''a.png'' (fileOf (pngStream [exIHDR, exOFFs, exIDAT, exIEND])))
     = Parse (New ''a.png'' (fileOf (pngStream [exIHDR, exPCAL, exIDAT, exIEND])))
   \<and> fst (Parse (New ''a.png'' (fileOf (pngStream [exIHDR, exOFFs, exIDAT, exIEND])))) = None
   \<and> reemitAll (data (snd (Parse (New ''a.png'' (fileOf (pngStream [exIHDR, exOFFs, exIDAT, exIEND]))))))
     \<noteq> pngStream [exIHDR, exOFFs, exIDAT, exIEND]"
proof -
  have wfA: "list_all wellFormed [exIHDR, exOFFs, exIDAT, exIEND]"
    and wfB: "list_all wellFormed [exIHDR, exPCAL, exIDAT, exIEND]"
    by (simp_all add: ex_defs wellFormed_def ascii_def)
  have same: "map parsedChunk [exIHDR, exOFFs, exIDAT, exIEND]
      = map parsedChunk [exIHDR, exPCAL, exIDAT, exIEND]"
    by (simp add: parsedChunk_def ex_defs getChunkType_def ct_defs ascii_def)
  have diff: "pngStream [exIHDR, exOFFs, exIDAT, exIEND] \<noteq> pngStream [exIHDR, exPCAL, exIDAT, exIEND]"
    by (simp add: pngStream_def onWire_def ex_defs ascii_def)
  have lost: "reemitAll (map parsedChunk [exIHDR, exOFFs, exIDAT, exIEND])
      \<noteq> pngStream [exIHDR, exOFFs, exIDAT, exIEND]"
    by (simp add: reemitAll_def reemit_def pngStream_def onWire_def parsedChunk_def ex_defs
        getChunkType_def ct_defs ascii_def)
  show ?thesis
    using wfA wfB diff lost same
    by (simp add: Parse_pngStream [OF wfA] Parse_pngStream [OF wfB])
qed

section \<open>Truncated input\<close>

lemma chunks_body_short_data:
  assumes "length rest < unat (BigEndian_Uint32 (slice4 len))"
  shows "chunks_body \<lparr>pending = slice4 len @ slice4 code @ rest, ending = EOF\<rparr>
    = (if rest = [] then Break else Return (ErrChunkData ErrUnexpectedEOF),
       \<lparr>pending = [], ending = EOF\<rparr>)"
  using assms
  unfolding chunks_body_def
  by (simp add: ReadFull_append ReadFull_short ReadFull_at_end)

lemma chunks_body_short_type:
  assumes "length rest < 4"
  shows "chunks_body \<lparr>pending = slice4 len @ rest, ending = EOF\<rparr>
    = (if rest = [] then Break else Return (ErrChunkType ErrUnexpectedEOF),
       \<lparr>pending = [], ending = EOF\<rparr>)"
  using assms
  unfolding chunks_body_def
  by (simp add: ReadFull_append ReadFull_short ReadFull_at_end)

lemma chunks_truncated:
  assumes "list_all wellFormed rcs"
    and "chunks_body \<lparr>pending = tail, ending = EOF\<rparr> = (s, \<lparr>pending = [], ending = EOF\<rparr>)"
    and "s = Break \<or> s = Return err"
  shows "chunks (New path (fileOf (pngStream rcs @ tail)))
    = ((map parsedChunk rcs, if s = Break then None else Some err),
       \<lparr>Path = path, br = fileOf [], data = []\<rparr>)"
proof -
  have "chunks_loop \<lparr>pending = concat (map onWire rcs) @ tail, ending = EOF\<rparr> []
      = chunks_loop \<lparr>pending = tail, ending = EOF\<rparr> ([] @ map parsedChunk rcs)"
    using assms(1) by (rule chunks_loop_onWire)
  also have "\<dots> = ((map parsedChunk rcs, if s = Break then None else Some err),
      \<lparr>pending = [], ending = EOF\<rparr>)"
    using assms(2,3) by (subst chunks_loop.simps) auto
  finally show ?thesis
    by (simp add: New_def fileOf_def pngStream_def chunks_signature)
qed

lemma wellFormed_exIHDR: "list_all wellFormed [exIHDR]"
  by (simp add: ex_defs wellFormed_def)

text \<open>
  Claim C3, as amended. When the input ends inside the data of its last chunk, after zero
  or more well-formed chunks: if no data byte at all is left, the loop ends without error and
  \<open>Parse\<close> stores exactly the chunks completed before; if some data bytes are left, but
  fewer than the length declares, \<open>Parse\<close> fails with the error of the data read
  (\<open>unexpected EOF\<close>) and stores nothing. In neither case do the bytes of the unfinished
  chunk appear in a stored chunk.
\<close>

theorem short_data_at_end:
  assumes "list_all wellFormed rcs"
    and "length rest < unat (BigEndian_Uint32 (slice4 len))"
  shows "chunks (New path (fileOf (pngStream rcs @ slice4 len @ slice4 code @ rest)))
      = ((map parsedChunk rcs, if rest = [] then None else Some (ErrChunkData ErrUnexpectedEOF)),
         \<lparr>Path = path, br = fileOf [], data = []\<rparr>)
    \<and> Parse (New path (fileOf (pngStream rcs @ slice4 len @ slice4 code @ rest)))
      = (if rest = [] then (None, \<lparr>Path = path, br = fileOf [], data = map parsedChunk rcs\<rparr>)
         else (Some (ErrChunkData ErrUnexpectedEOF), \<lparr>Path = path, br = fileOf [], data = []\<rparr>))"
proof -
  let ?s = "if rest = [] then Break else Return (ErrChunkData ErrUnexpectedEOF)"
  have "chunks (New path (fileOf (pngStream rcs @ slice4 len @ slice4 code @ rest)))
      = ((map parsedChunk rcs, if ?s = Break then None else Some (ErrChunkData ErrUnexpectedEOF)),
         \<lparr>Path = path, br = fileOf [], data = []\<rparr>)"
    using assms(1) chunks_body_short_data [OF assms(2)]
    by (rule chunks_truncated) simp
  then show ?thesis
    by (simp add: Parse_def)
qed

theorem short_data_at_end_witness:
  "list_all wellFormed [exIHDR]
   \<and> length (ascii ''he'') < unat (BigEndian_Uint32 (slice4 (0, 0, 0, 5)))
   \<and> Parse (New ''a.png'' (fileOf (pngStream [exIHDR] @ slice4 (0, 0, 0, 5) @ slice4 (array4 (ascii ''tEXt'')) @ ascii ''he'')))
     = (Some (ErrChunkData ErrUnexpectedEOF), \<lparr>Path = ''a.png'', br = fileOf [], data = []\<rparr>)
   \<and> length ([] :: byte list) < unat (BigEndian_Uint32 (slice4 (0, 0, 0, 5)))
   \<and> Parse (New ''a.png'' (fileOf (pngStream [exIHDR] @ slice4 (0, 0, 0, 5) @ slice4 (array4 (ascii ''tEXt'')) @ [])))
     = (None, \<lparr>Path = ''a.png'', br = fileOf [], data = [parsedChunk exIHDR]\<rparr>)"
proof -
  have h1: "length (ascii ''he'') < unat (BigEndian_Uint32 (slice4 (0, 0, 0, 5)))"
    by (simp add: ascii_def)
  have h2: "length ([] :: byte list) < unat (BigEndian_Uint32 (slice4 (0, 0, 0, 5)))"
    by simp
  have ne: "ascii ''he'' \<noteq> []"
    by (simp add: ascii_def)
  show ?thesis
    using wellFormed_exIHDR h1 h2 ne
      short_data_at_end [OF wellFormed_exIHDR h1, of "''a.png''" "array4 (ascii ''tEXt'')"]
      short_data_at_end [OF wellFormed_exIHDR h2, of "''a.png''" "array4 (ascii ''tEXt'')"]
    by simp
qed

text \<open>
  The counterexample to C3 as stated: after a complete header chunk, a chunk that declares
  five data bytes and has two. \<open>Parse\<close> returns an error and stores no chunk.
\<close>

theorem short_data_counterexample:
  "length (ascii ''he'') < unat (BigEndian_Uint32 [0, 0, 0, 5])
   \<and> Parse (New ''a.png'' (fileOf (pngStream [exIHDR] @ [0, 0, 0, 5] @ ascii ''tEXt'' @ ascii ''he'')))
     = (Some (ErrChunkData ErrUnexpectedEOF), \<lparr>Path = ''a.png'', br = fileOf [], data = []\<rparr>)"
  by (simp add: Parse_def chunks_def IsPNG_def Peek_def ReadFull_def New_def fileOf_def
      pngStream_def onWire_def ex_defs pngHeader_def ascii_def chunks_loop.simps
      chunks_body_def getChunkType_def ct_defs)

text \<open>
  Claim C4, as amended. When the input ends after the four bytes of a chunk length, after
  zero or more well-formed chunks: if one to three bytes are left for the type code,
  \<open>Parse\<close> fails with the error of the type read (\<open>unexpected EOF\<close>) and stores nothing
  (\<open>chunks\<close> hands the chunks completed before back next to the error, and \<open>Parse\<close> drops
  them); if no byte is left, the loop ends without error and \<open>Parse\<close> stores the chunks
  completed before.
\<close>

theorem short_type_at_end:
  assumes "list_all wellFormed rcs"
    and "length rest < 4"
  shows "chunks (New path (fileOf (pngStream rcs @ slice4 len @ rest)))
      = ((map parsedChunk rcs, if rest = [] then None else Some (ErrChunkType ErrUnexpectedEOF)),
         \<lparr>Path = path, br = fileOf [], data = []\<rparr>)
    \<and> Parse (New path (fileOf (pngStream rcs @ slice4 len @ rest)))
      = (if rest = [] then (None, \<lparr>Path = path, br = fileOf [], data = map parsedChunk rcs\<rparr>)
         else (Some (ErrChunkType ErrUnexpectedEOF), \<lparr>Path = path, br = fileOf [], data = []\<rparr>))"
proof -
  let ?s = "if rest = [] then Break else Return (ErrChunkType ErrUnexpectedEOF)"
  have "chunks (New path (fileOf (pngStream rcs @ slice4 len @ rest)))
      = ((map parsedChunk rcs, if ?s = Break then None else Some (ErrChunkType ErrUnexpectedEOF)),
         \<lparr>Path = path, br = fileOf [], data = []\<rparr>)"
    using assms(1) chunks_body_short_type [OF assms(2)]
    by (rule chunks_truncated) simp
  then show ?thesis
    by (simp add: Parse_def)
qed

theorem short_type_at_end_witness:
  "list_all wellFormed [exIHDR]
   \<and> length [0x74, 0x45 :: byte] < 4
   \<and> Parse (New ''a.png'' (fileOf (pngStream [exIHDR] @ slice4 (0, 0, 0, 5) @ [0x74, 0x45])))
     = (Some (ErrChunkType ErrUnexpectedEOF), \<lparr>Path = ''a.png'', br = fileOf [], data = []\<rparr>)
   \<and> length ([] :: byte list) < 4
   \<and> Parse (New ''a.png'' (fileOf (pngStream [exIHDR] @ slice4 (0, 0, 0, 5) @ [])))
     = (None, \<lparr>Path = ''a.png'', br = fileOf [], data = [parsedChunk exIHDR]\<rparr>)"
proof -
  have h1: "length [0x74, 0x45 :: byte] < 4"
    by simp
  have h2: "length ([] :: byte list) < 4"
    by simp
  show ?thesis
    using wellFormed_exIHDR h1 h2
      short_type_at_end [OF wellFormed_exIHDR h1, of "''a.png''" "(0, 0, 0, 5)"]
      short_type_at_end [OF wellFormed_exIHDR h2, of "''a.png''" "(0, 0, 0, 5)"]
    by simp
qed

text \<open>
  The counterexample to C4 as stated: a complete header chunk followed by the four bytes of
  a length and nothing else. \<open>Parse\<close> returns no error and stores the header chunk.
\<close>

theorem short_type_counterexample:
  "Parse (New ''a.png'' (fileOf (pngStream [exIHDR] @ [0, 0, 0, 5])))
     = (None, \<lparr>Path = ''a.png'', br = fileOf [], data = [parsedChunk exIHDR]\<rparr>)"
  by (simp add: Parse_def chunks_def IsPNG_def Peek_def ReadFull_def New_def fileOf_def
      pngStream_def onWire_def ex_defs pngHeader_def ascii_def chunks_loop.simps
      chunks_body_def getChunkType_def ct_defs parsedChunk_def)

section \<open>Stripping twice\<close>

lemma strip_spec_pngStream:
  "strip_spec cs = pngStream (map toRaw (filter (\<lambda>c. isCritical (Type c)) cs))"
proof -
  have "concat (map reemit (filter (\<lambda>c. isCritical (Type c)) cs))
      = concat (map onWire (map toRaw (filter (\<lambda>c. isCritical (Type c)) cs)))"
    by (induction cs) (auto simp add: onWire_toRaw isCritical_def)
  then show ?thesis
    by (simp only: strip_spec_def reemitAll_def pngStream_def)
qed

lemma parsedChunk_toRaw_critical:
  "map parsedChunk (map toRaw (filter (\<lambda>c. isCritical (Type c)) cs))
    = filter (\<lambda>c. isCritical (Type c)) cs"
  by (induction cs) (auto simp add: parsedChunk_toRaw isCritical_def)

lemma Parse_strip_spec:
  assumes "list_all consistent cs"
  shows "Parse (New path (fileOf (strip_spec cs)))
    = (None, \<lparr>Path = path, br = fileOf [], data = filter (\<lambda>c. isCritical (Type c)) cs\<rparr>)"
proof -
  let ?crit = "filter (\<lambda>c. isCritical (Type c)) cs"
  have "list_all wellFormed (map toRaw ?crit)"
    using assms by (simp add: list_all_iff wellFormed_toRaw)
  then have "Parse (New path (fileOf (pngStream (map toRaw ?crit))))
      = (None, \<lparr>Path = path, br = fileOf [], data = map parsedChunk (map toRaw ?crit)\<rparr>)"
    by (rule Parse_pngStream)
  then show ?thesis
    by (simp only: strip_spec_pngStream parsedChunk_toRaw_critical)
qed

text \<open>
  Claim C5. For every document that \<open>Parse\<close> has produced, parsing the stream that
  \<open>StripTags\<close> makes of it succeeds, and \<open>StripTags\<close> of the document parsed from it
  gives that same stream again.
\<close>

theorem StripTags_idempotent:
  assumes "Parse p = (None, p')"
  shows "\<exists>q. Parse (New path (fileOf (fst (StripTags p')))) = (None, q)
    \<and> StripTags q = StripTags p'"
proof -
  let ?q = "\<lparr>Path = path, br = fileOf [], data = filter (\<lambda>c. isCritical (Type c)) (data p')\<rparr>"
  have "list_all consistent (data p')"
    using assms by (rule Parse_consistent)
  then have "Parse (New path (fileOf (fst (StripTags p')))) = (None, ?q)"
    by (simp add: StripTags_eq Parse_strip_spec)
  moreover have "StripTags ?q = StripTags p'"
    by (simp add: StripTags_eq strip_spec_def)
  ultimately show ?thesis
    by blast
qed

theorem StripTags_idempotent_witness:
  "Parse (New ''a.png'' (fileOf (pngStream examplePNG)))
     = (None, \<lparr>Path = ''a.png'', br = fileOf [], data = map parsedChunk examplePNG\<rparr>)
   \<and> fst (StripTags \<lparr>Path = ''a.png'', br = fileOf [], data = map parsedChunk examplePNG\<rparr>)
     = pngStream [exIHDR, exIDAT, exIEND]
   \<and> (\<exists>q. Parse (New ''a-cleaned.png'' (fileOf (pngStream [exIHDR, exIDAT, exIEND]))) = (None, q)
        \<and> StripTags q = (pngStream [exIHDR, exIDAT, exIEND], None))"
proof -
  let ?p' = "\<lparr>Path = ''a.png'', br = fileOf [], data = map parsedChunk examplePNG\<rparr>"
  have parsed: "Parse (New ''a.png'' (fileOf (pngStream examplePNG))) = (None, ?p')"
    using wellFormed_examplePNG by (rule Parse_pngStream)
  have stripped: "StripTags ?p' = (pngStream [exIHDR, exIDAT, exIEND], None)"
    by (simp add: StripTags_eq strip_spec_def reemitAll_def ex_defs pngStream_def onWire_def
        parsedChunk_def reemit_def isCritical_def getChunkType_def ct_defs ascii_def)
  show ?thesis
    using parsed stripped StripTags_idempotent [OF parsed, of "''a-cleaned.png''"]
    by simp
qed

end
